theory Spec2Isabelle
  imports Complex_Main "HOL-Library.Multiset" "HOL-Library.Sublist"
begin

section \<open>Data model (src/context/VerificationContext.tsx)\<close>

text \<open>
  The interfaces of VerificationContext.tsx. An optional field (\<open>f?: T\<close>) is an
  \<open>option\<close>. The record identifier is the field \<open>id\<close> of the source; it is called
  \<open>id_str\<close> here because \<open>id\<close> is the identity function of HOL. The field
  \<open>confidence\<close> is a JavaScript number.
  services/api.ts declares the same two result interfaces with every field required and
  the verdict restricted to three literals; its values are embedded in the wider
  interfaces of the context, which is where pages/LandingPage.tsx stores them.
\<close>

text \<open>
  A JavaScript number: a finite value, \<open>NaN\<close> or an infinity. The finite values are
  real numbers (the doubles are among them); the two zeros, which \<open>===\<close> does not tell
  apart, are one value.
\<close>

datatype number = Finite real | NaN | PosInfinity | NegInfinity

record Citation =
  title :: string
  source :: string
  url :: string
  publishedAt :: "string option"
  summary :: "string option"

record VerificationResult =
  verdict :: string
  confidence :: number
  explanation :: string
  citations :: "Citation list option"
  language :: "string option"
  model :: "string option"
  processingTime :: "string option"

record Verification =
  id_str :: string
  input :: string
  result :: VerificationResult
  timestamp :: string

record VerificationState =
  verifications :: "Verification list"

datatype VerificationAction =
    ADD_VERIFICATION Verification
  | REMOVE_VERIFICATION string
  | CLEAR_HISTORY
  | LOAD_FROM_STORAGE "Verification list"

section \<open>The verification history store\<close>

text \<open>
  \<open>verificationReducer\<close>, case by case as in the source. The \<open>default\<close> branch of the
  switch returns the state unchanged; no value of the action type reaches it.
\<close>

fun verificationReducer :: "VerificationState \<Rightarrow> VerificationAction \<Rightarrow> VerificationState" where
  "verificationReducer state (ADD_VERIFICATION payload) =
     state\<lparr>verifications := payload # verifications state\<rparr>"
| "verificationReducer state (REMOVE_VERIFICATION payload) =
     state\<lparr>verifications := filter (\<lambda>v. id_str v \<noteq> payload) (verifications state)\<rparr>"
| "verificationReducer state CLEAR_HISTORY =
     state\<lparr>verifications := []\<rparr>"
| "verificationReducer state (LOAD_FROM_STORAGE payload) =
     state\<lparr>verifications := payload\<rparr>"

text \<open>The initial state handed to \<open>useReducer\<close>.\<close>

definition initialState :: VerificationState where
  "initialState = \<lparr>verifications = []\<rparr>"

text \<open>
  \<open>getVerification\<close> is \<open>state.verifications.find(v => v.id === id)\<close>: the first
  element that matches, or \<open>undefined\<close> (\<open>None\<close>).
\<close>

definition getVerification :: "VerificationState \<Rightarrow> string \<Rightarrow> Verification option" where
  "getVerification state i = find (\<lambda>v. id_str v = i) (verifications state)"

text \<open>
  The callbacks of the provider dispatch one action each; a sequence of dispatches is a
  left fold of the reducer.
\<close>

definition addVerification :: "Verification \<Rightarrow> VerificationState \<Rightarrow> VerificationState" where
  "addVerification verification state = verificationReducer state (ADD_VERIFICATION verification)"

definition removeVerification :: "string \<Rightarrow> VerificationState \<Rightarrow> VerificationState" where
  "removeVerification i state = verificationReducer state (REMOVE_VERIFICATION i)"

definition clearHistory :: "VerificationState \<Rightarrow> VerificationState" where
  "clearHistory state = verificationReducer state CLEAR_HISTORY"

definition dispatch_all :: "VerificationState \<Rightarrow> VerificationAction list \<Rightarrow> VerificationState" where
  "dispatch_all state actions = foldl verificationReducer state actions"

text \<open>
  Following the words of the specification, not the source: removal of the first record
  whose identifier equals the argument, and only that one.
\<close>

fun remove_first_spec :: "string \<Rightarrow> Verification list \<Rightarrow> Verification list" where
  "remove_first_spec i [] = []"
| "remove_first_spec i (v # vs) = (if id_str v = i then vs else v # remove_first_spec i vs)"

text \<open>The records an action brings into the store from outside.\<close>

fun supplied :: "VerificationAction \<Rightarrow> Verification set" where
  "supplied (ADD_VERIFICATION payload) = {payload}"
| "supplied (REMOVE_VERIFICATION payload) = {}"
| "supplied CLEAR_HISTORY = {}"
| "supplied (LOAD_FROM_STORAGE payload) = set payload"

text \<open>Concrete records used to instantiate the theorems.\<close>

definition sample_result :: VerificationResult where
  "sample_result = \<lparr>verdict = ''true'', confidence = Finite 90, explanation = ''...'',
     citations = Some [], language = None, model = None, processingTime = None\<rparr>"

definition sample :: "string \<Rightarrow> string \<Rightarrow> Verification" where
  "sample i txt = \<lparr>id_str = i, input = txt, result = sample_result,
     timestamp = ''2024-01-01T00:00:00Z''\<rparr>"


section \<open>Strings and the random source\<close>

text \<open>
  \<open>String.prototype.toLowerCase\<close> on the ASCII letters: \<open>A\<close>..\<open>Z\<close> (codes 65..90) move
  to \<open>a\<close>..\<open>z\<close>. Every other character is left as it is; the engine also lowers the
  capitals beyond ASCII, to letters that are again beyond ASCII, which no comparison with
  the ASCII words of the source can tell apart from the capitals.
\<close>

definition lower_char :: "char \<Rightarrow> char" where
  "lower_char c =
     (let n = (of_char c :: nat) in if 65 \<le> n \<and> n \<le> 90 then char_of (n + 32) else c)"

definition toLowerCase :: "string \<Rightarrow> string" where
  "toLowerCase s = map lower_char s"

text \<open>\<open>s.includes(w)\<close>: \<open>w\<close> occurs in \<open>s\<close> as a contiguous run.\<close>

fun includes_str :: "string \<Rightarrow> string \<Rightarrow> bool" where
  "includes_str [] w = (w = [])"
| "includes_str (c # s) w = (prefix w (c # s) \<or> includes_str s w)"

text \<open>
  Following the words of the specification ("in any letter case"), without
  \<open>toLowerCase\<close>: a run of \<open>s\<close> spells the lower-case word \<open>w\<close> when each of its
  characters is the character of \<open>w\<close> at that place or its capital.
\<close>

definition upper_char :: "char \<Rightarrow> char" where
  "upper_char c =
     (let n = (of_char c :: nat) in if 97 \<le> n \<and> n \<le> 122 then char_of (n - 32) else c)"

definition same_letter :: "char \<Rightarrow> char \<Rightarrow> bool" where
  "same_letter c d = (c = d \<or> c = upper_char d)"

definition equals_any_case :: "string \<Rightarrow> string \<Rightarrow> bool" where
  "equals_any_case s w = list_all2 same_letter s w"

fun starts_any_case :: "string \<Rightarrow> string \<Rightarrow> bool" where
  "starts_any_case s [] = True"
| "starts_any_case [] (d # w) = False"
| "starts_any_case (c # s) (d # w) = (same_letter c d \<and> starts_any_case s w)"

fun contains_any_case :: "string \<Rightarrow> string \<Rightarrow> bool" where
  "contains_any_case [] w = starts_any_case [] w"
| "contains_any_case (c # s) w = (starts_any_case (c # s) w \<or> contains_any_case s w)"

text \<open>
  \<open>Math.random()\<close> is modelled by an explicit source of draws: the \<open>n\<close>-th call returns
  \<open>g n\<close>, a real number; the engine promises \<open>0 \<le> g n < 1\<close>. A call returns the draw
  and the source advanced by one.
\<close>

type_synonym rng = "nat \<Rightarrow> real"

definition Math_random :: "rng \<Rightarrow> real \<times> rng" where
  "Math_random g = (g 0, \<lambda>n. g (Suc n))"

definition unit_interval :: "rng \<Rightarrow> bool" where
  "unit_interval g = (\<forall>n. 0 \<le> g n \<and> g n < 1)"

text \<open>
  \<open>xs.slice(0, e)\<close> for an integer \<open>e\<close>: a negative \<open>e\<close> counts from the end of the
  array, and an \<open>e\<close> beyond the length stops at the length.
\<close>

definition slice0 :: "int \<Rightarrow> 'a list \<Rightarrow> 'a list" where
  "slice0 e xs = (if e < 0 then take (nat (int (length xs) + e)) xs else take (nat e) xs)"

text \<open>Decimal digits of a natural number, most significant first.\<close>

fun digits :: "nat \<Rightarrow> string" where
  "digits n =
     (if n < 10 then [char_of (48 + n)] else digits (n div 10) @ [char_of (48 + n mod 10)])"

text \<open>
  \<open>x.toFixed(1)\<close> for \<open>|x| < 10^21\<close>: the integer \<open>n\<close> nearest to \<open>10 * x\<close> (the larger
  one at a tie), printed with one digit after the point.
\<close>

definition toFixed1 :: "real \<Rightarrow> string" where
  "toFixed1 x =
     (let sgn = (if x < 0 then ''-'' else []);
          n = nat \<lfloor>\<bar>x\<bar> * 10 + 1 / 2\<rfloor>
      in sgn @ digits (n div 10) @ ''.'' @ digits (n mod 10))"

section \<open>The verification client's fallback (src/services/api.ts)\<close>

definition mockCitations :: "Citation list" where
  "mockCitations =
    [\<lparr>title = ''Vaccines and Autism: A Comprehensive Review'',
      source = ''Centers for Disease Control and Prevention'',
      url = ''https://www.cdc.gov/vaccinesafety/concerns/autism.html'',
      publishedAt = Some ''2024-01-15'',
      summary = Some ''Comprehensive analysis of vaccine safety data showing no link between vaccines and autism spectrum disorders.''\<rparr>,
     \<lparr>title = ''Global Vaccine Safety Initiative'',
      source = ''World Health Organization'',
      url = ''https://www.who.int/vaccine_safety/initiative/detection/en/'',
      publishedAt = Some ''2024-02-10'',
      summary = Some ''WHO's ongoing efforts to monitor vaccine safety globally and address misinformation.''\<rparr>,
     \<lparr>title = ''Nutritional Benefits of Citrus Fruits in Human Health'',
      source = ''PubMed Central'',
      url = ''https://www.ncbi.nlm.nih.gov/pmc/articles/PMC8234135/'',
      publishedAt = Some ''2023-11-20'',
      summary = Some ''Research review on the health benefits of citrus fruits including vitamin C content and antioxidant properties.''\<rparr>]"

definition explanation_vaccine :: string where
  "explanation_vaccine = ''This claim has been thoroughly debunked by extensive scientific research. Multiple large-scale studies involving millions of children have found no link between vaccines and autism. The original study suggesting this connection was retracted due to fraudulent data manipulation. Vaccines are safe, effective, and crucial for public health.''"

definition explanation_lemon :: string where
  "explanation_lemon = ''While lemon water can be part of a healthy hydration routine, claims about significant metabolism boosting and weight loss effects are overstated. There's limited scientific evidence supporting dramatic metabolic benefits.''"

definition explanation_generic :: string where
  "explanation_generic = ''Based on our analysis of current medical literature and trusted health sources, this claim requires careful consideration. We recommend consulting with healthcare professionals for personalized medical advice.''"

text \<open>
  \<open>getMockVerificationResult\<close>. The draws are taken in the order of the source: one for
  the simulated delay (it only sets the timer), two in the last branch (verdict,
  confidence), then one for the number of citations and one for the processing time.
\<close>

definition getMockVerificationResult :: "string \<Rightarrow> rng \<Rightarrow> VerificationResult \<times> rng" where
  "getMockVerificationResult inp g0 =
     (case Math_random g0 of (delay, g1) \<Rightarrow>
      let containsVaccine = includes_str (toLowerCase inp) ''vaccine'';
          containsLemon = includes_str (toLowerCase inp) ''lemon''
      in case
           (if containsVaccine \<and> includes_str (toLowerCase inp) ''autism''
            then (''misleading'', Finite 95, explanation_vaccine, g1)
            else if containsLemon
            then (''needs review'', Finite 72, explanation_lemon, g1)
            else (case Math_random g1 of (r1, h1) \<Rightarrow>
                  case Math_random h1 of (r2, h2) \<Rightarrow>
                    (if r1 > 0.5 then ''true'' else ''needs review'',
                     Finite (of_int \<lfloor>60 + r2 * 35\<rfloor>), explanation_generic, h2)))
         of (verdict_v, confidence_v, explanation_v, g2) \<Rightarrow>
      case Math_random g2 of (r3, g3) \<Rightarrow>
      case Math_random g3 of (r4, g4) \<Rightarrow>
        (\<lparr>verdict = verdict_v,
          confidence = confidence_v,
          explanation = explanation_v,
          citations = Some (slice0 \<lfloor>1 + r3 * 3\<rfloor> mockCitations),
          language = Some ''English'',
          model = Some ''BioBERT + GPT-4'',
          processingTime = Some (toFixed1 (2 + r4 * 2) @ ''s'')\<rparr>, g4))"

section \<open>The news client's fallback (src/services/newsApi.ts)\<close>

text \<open>
  The interface \<open>NewsArticle\<close>; its fields carry the prefix \<open>article_\<close> because the
  citation record has fields of the same names.
\<close>

record NewsArticle =
  article_id :: string
  article_title :: string
  article_summary :: string
  article_url :: string
  article_publishedAt :: string
  article_source :: string

definition mockNewsArticles :: "NewsArticle list" where
  "mockNewsArticles =
    [\<lparr>article_id = ''1'',
      article_title = ''New WHO Guidelines on Digital Health Interventions'',
      article_summary = ''The World Health Organization releases updated guidelines for digital health technologies and their implementation in healthcare systems worldwide.'',
      article_url = ''https://www.who.int/news/item/01-01-2024-new-digital-health-guidelines'',
      article_publishedAt = ''2024-01-15T10:00:00Z'',
      article_source = ''WHO''\<rparr>,
     \<lparr>article_id = ''2'',
      article_title = ''CDC Updates Recommendations for Seasonal Flu Vaccination'',
      article_summary = ''Latest recommendations for the 2024 flu season, including new vaccine formulations and priority groups for vaccination.'',
      article_url = ''https://www.cdc.gov/flu/season/recommendations-2024.html'',
      article_publishedAt = ''2024-01-14T14:30:00Z'',
      article_source = ''CDC''\<rparr>,
     \<lparr>article_id = ''3'',
      article_title = ''Breakthrough in Cancer Immunotherapy Research'',
      article_summary = ''Recent studies published in major medical journals show promising results for new immunotherapy approaches in treating various cancer types.'',
      article_url = ''https://pubmed.ncbi.nlm.nih.gov/38234567/'',
      article_publishedAt = ''2024-01-13T09:15:00Z'',
      article_source = ''PubMed''\<rparr>,
     \<lparr>article_id = ''4'',
      article_title = ''Global Mental Health Initiative Launched by WHO'',
      article_summary = ''A comprehensive global initiative aimed at improving mental health services and reducing stigma worldwide.'',
      article_url = ''https://www.who.int/news/item/12-01-2024-mental-health-initiative'',
      article_publishedAt = ''2024-01-12T11:45:00Z'',
      article_source = ''WHO''\<rparr>,
     \<lparr>article_id = ''5'',
      article_title = ''Antibiotic Resistance: New Surveillance Data Released'',
      article_summary = ''CDC releases latest data on antibiotic resistance patterns and provides updated guidelines for healthcare providers.'',
      article_url = ''https://www.cdc.gov/drugresistance/surveillance-report-2024.html'',
      article_publishedAt = ''2024-01-11T16:20:00Z'',
      article_source = ''CDC''\<rparr>]"

text \<open>
  \<open>Array.prototype.sort\<close> with a comparator that draws from the random source. The
  language leaves the algorithm to the engine, so the fallback takes the engine's sort
  as an argument: it receives the comparator, the array and the source, and returns
  the sorted copy and the source after the comparator's draws.
\<close>

type_synonym 'a comparator = "'a \<Rightarrow> 'a \<Rightarrow> rng \<Rightarrow> real \<times> rng"

type_synonym 'a array_sort = "'a comparator \<Rightarrow> 'a list \<Rightarrow> rng \<Rightarrow> 'a list \<times> rng"

text \<open>The comparator of the source, \<open>() => 0.5 - Math.random()\<close>; it ignores its arguments.\<close>

definition shuffle_comparator :: "'a comparator" where
  "shuffle_comparator a b g = (case Math_random g of (r, g') \<Rightarrow> (0.5 - r, g'))"

definition getMockNewsArticles :: "NewsArticle array_sort \<Rightarrow> rng \<Rightarrow> NewsArticle list \<times> rng" where
  "getMockNewsArticles sort_impl g0 =
     (case Math_random g0 of (delay, g1) \<Rightarrow>
      case sort_impl shuffle_comparator mockNewsArticles g1 of (shuffled, g2) \<Rightarrow>
      case Math_random g2 of (r, g3) \<Rightarrow>
        (slice0 (5 + \<lfloor>r * 3\<rfloor>) shuffled, g3))"

text \<open>
  One engine: insertion sort. An element goes before the first element that the
  comparator does not place ahead of it (result \<open>\<le> 0\<close>).
\<close>

fun insert_by :: "'a comparator \<Rightarrow> 'a \<Rightarrow> 'a list \<Rightarrow> rng \<Rightarrow> 'a list \<times> rng" where
  "insert_by cmp x [] g = ([x], g)"
| "insert_by cmp x (y # ys) g =
     (case cmp x y g of (c, g') \<Rightarrow>
        if c \<le> 0 then (x # y # ys, g')
        else (case insert_by cmp x ys g' of (zs, g'') \<Rightarrow> (y # zs, g'')))"

fun insertion_sort :: "'a array_sort" where
  "insertion_sort cmp [] g = ([], g)"
| "insertion_sort cmp (x # xs) g =
     (case insertion_sort cmp xs g of (ys, g') \<Rightarrow> insert_by cmp x ys g')"

section \<open>The verdict's rendering configuration (src/pages/ResultsPage.tsx)\<close>

datatype Icon = CheckCircle | XCircle | AlertTriangle

record VerdictConfig =
  icon :: Icon
  color :: string
  bgColor :: string
  borderColor :: string
  label :: string

definition needsReviewConfig :: VerdictConfig where
  "needsReviewConfig =
     \<lparr>icon = AlertTriangle,
      color = ''text-amber-600 dark:text-amber-400'',
      bgColor = ''bg-amber-50 dark:bg-amber-900/20'',
      borderColor = ''border-amber-200 dark:border-amber-800'',
      label = ''Needs Review''\<rparr>"

text \<open>\<open>getVerdictConfig\<close>: a switch on \<open>verdict.toLowerCase()\<close>.\<close>

definition getVerdictConfig :: "string \<Rightarrow> VerdictConfig" where
  "getVerdictConfig v =
     (if toLowerCase v = ''true'' then
        \<lparr>icon = CheckCircle,
         color = ''text-green-600 dark:text-green-400'',
         bgColor = ''bg-green-50 dark:bg-green-900/20'',
         borderColor = ''border-green-200 dark:border-green-800'',
         label = ''Verified True''\<rparr>
      else if toLowerCase v = ''misleading'' then
        \<lparr>icon = XCircle,
         color = ''text-red-600 dark:text-red-400'',
         bgColor = ''bg-red-50 dark:bg-red-900/20'',
         borderColor = ''border-red-200 dark:border-red-800'',
         label = ''Misleading''\<rparr>
      else
        \<lparr>icon = AlertTriangle,
         color = ''text-amber-600 dark:text-amber-400'',
         bgColor = ''bg-amber-50 dark:bg-amber-900/20'',
         borderColor = ''border-amber-200 dark:border-amber-800'',
         label = ''Needs Review''\<rparr>)"

text \<open>A source whose every draw is the same number, and the sorts the theorems admit.\<close>

definition constant_source :: "real \<Rightarrow> rng" where
  "constant_source r = (\<lambda>n. r)"

text \<open>
  What is asked of the engine's sort under the shuffling comparator: it returns a
  permutation of the array and hands the random source on as a source of draws in
  \<open>[0, 1)\<close>.
\<close>

definition well_behaved_sort :: "'a array_sort \<Rightarrow> bool" where
  "well_behaved_sort sort_impl =
     (\<forall>xs g. unit_interval g \<longrightarrow>
        mset (fst (sort_impl shuffle_comparator xs g)) = mset xs
        \<and> unit_interval (snd (sort_impl shuffle_comparator xs g)))"

section \<open>JSON values, \<open>JSON.stringify\<close> and \<open>JSON.parse\<close>\<close>

text \<open>
  The provider keeps the collection in the browser's storage as JSON text. A text is a
  \<open>string\<close>, the list of the bytes of its UTF-8 encoding, so a character beyond ASCII
  is two to four bytes. A JSON number is a JavaScript number. Object members are kept in
  the order of the text (the engine moves keys that are array indices to the front; the
  records have none).

  How a finite number is printed (\<open>Number::toString\<close>) and which number a numeral
  denotes (rounding to the nearest double, overflow to an infinity) is floating-point
  code of the engine: both conversions are arguments of the two functions, named
  \<open>number_to_string\<close> and \<open>string_to_number\<close>.
\<close>

datatype json =
    JNull
  | JBool bool
  | JNum number
  | JStr string
  | JArr "json list"
  | JObj "(string \<times> json) list"

abbreviation dquote :: char where "dquote \<equiv> CHR 0x22"
abbreviation backslash :: char where "backslash \<equiv> CHR 0x5C"





text \<open>
  \<open>JSON.parse\<close>: a recursive-descent reader. White space (space, tab, line feed,
  carriage return) may stand before every token and after the value.
\<close>

definition is_ws :: "char \<Rightarrow> bool" where
  "is_ws c = (c = CHR 0x20 \<or> c = CHR 0x09 \<or> c = CHR 0x0A \<or> c = CHR 0x0D)"

definition skip_ws :: "string \<Rightarrow> string" where
  "skip_ws s = dropWhile is_ws s"

definition is_digit :: "char \<Rightarrow> bool" where
  "is_digit c = (48 \<le> (of_char c :: nat) \<and> (of_char c :: nat) \<le> 57)"

definition digits_value :: "string \<Rightarrow> nat" where
  "digits_value ds = foldl (\<lambda>a c. 10 * a + (of_char c - 48)) 0 ds"

definition hex_value :: "char \<Rightarrow> nat option" where
  "hex_value c =
     (let n = (of_char c :: nat) in
      if 48 \<le> n \<and> n \<le> 57 then Some (n - 48)
      else if 97 \<le> n \<and> n \<le> 102 then Some (n - 87)
      else if 65 \<le> n \<and> n \<le> 70 then Some (n - 55)
      else None)"

definition unescape :: "char \<Rightarrow> char option" where
  "unescape e =
     (if e = dquote then Some dquote
      else if e = backslash then Some backslash
      else if e = CHR ''/'' then Some CHR ''/''
      else if e = CHR ''b'' then Some (CHR 0x08)
      else if e = CHR ''f'' then Some (CHR 0x0C)
      else if e = CHR ''n'' then Some (CHR 0x0A)
      else if e = CHR ''r'' then Some (CHR 0x0D)
      else if e = CHR ''t'' then Some (CHR 0x09)
      else None)"

text \<open>The code unit of an escape \<open>\uXXXX\<close>: four hexadecimal digits of either case.\<close>

definition code_unit :: "char \<Rightarrow> char \<Rightarrow> char \<Rightarrow> char \<Rightarrow> nat option" where
  "code_unit h1 h2 h3 h4 =
     (case (hex_value h1, hex_value h2, hex_value h3, hex_value h4) of
        (Some a, Some b, Some c, Some d) \<Rightarrow> Some (4096 * a + 256 * b + 16 * c + d)
      | _ \<Rightarrow> None)"

text \<open>
  The characters of a string after its opening quotation mark, up to the closing one:
  a byte of the text or of a short escape, or the code unit of a \<open>\u\<close> escape. The
  result is these items and the text after the string.
\<close>

datatype item = Byte char | Unit nat

definition cons_item ::
  "item \<Rightarrow> (item list \<times> string) option \<Rightarrow> (item list \<times> string) option" where
  "cons_item i res = map_option (\<lambda>(items, rest). (i # items, rest)) res"

fun parse_chars :: "string \<Rightarrow> (item list \<times> string) option" where
  "parse_chars [] = None"
| "parse_chars (c # s) =
     (if c = dquote then Some ([], s)
      else if c = backslash then
        (case s of
           [] \<Rightarrow> None
         | e # s1 \<Rightarrow>
             if e = CHR ''u'' then
               (case s1 of
                  h1 # h2 # h3 # h4 # s2 \<Rightarrow>
                    (case code_unit h1 h2 h3 h4 of
                       Some u \<Rightarrow> cons_item (Unit u) (parse_chars s2)
                     | None \<Rightarrow> None)
                | _ \<Rightarrow> None)
             else
               (case unescape e of
                  Some ch \<Rightarrow> cons_item (Byte ch) (parse_chars s1)
                | None \<Rightarrow> None))
      else if (of_char c :: nat) < 32 then None
      else cons_item (Byte c) (parse_chars s))"

text \<open>
  The string of the items. A code unit is written in UTF-8; a high surrogate followed
  by a low one is the two halves of one character beyond the basic plane. (A surrogate
  that stands alone is written in the same three-byte form as its neighbours.)
\<close>

definition utf8 :: "nat \<Rightarrow> string" where
  "utf8 cp =
     (if cp < 128 then [char_of cp]
      else if cp < 2048 then [char_of (192 + cp div 64), char_of (128 + cp mod 64)]
      else if cp < 65536 then
        [char_of (224 + cp div 4096), char_of (128 + (cp div 64) mod 64),
         char_of (128 + cp mod 64)]
      else
        [char_of (240 + cp div 262144), char_of (128 + (cp div 4096) mod 64),
         char_of (128 + (cp div 64) mod 64), char_of (128 + cp mod 64)])"

definition high_surrogate :: "nat \<Rightarrow> bool" where
  "high_surrogate u = (55296 \<le> u \<and> u \<le> 56319)"

definition low_surrogate :: "nat \<Rightarrow> bool" where
  "low_surrogate u = (56320 \<le> u \<and> u \<le> 57343)"

fun string_of_items :: "item list \<Rightarrow> string" where
  "string_of_items [] = []"
| "string_of_items (Byte c # xs) = c # string_of_items xs"
| "string_of_items [Unit u] = utf8 u"
| "string_of_items (Unit u # Byte c # xs) = utf8 u @ c # string_of_items xs"
| "string_of_items (Unit u # Unit l # xs) =
     (if high_surrogate u \<and> low_surrogate l
      then utf8 (65536 + (u - 55296) * 1024 + (l - 56320)) @ string_of_items xs
      else utf8 u @ string_of_items (Unit l # xs))"


definition parse_string :: "string \<Rightarrow> (string \<times> string) option" where
  "parse_string s = map_option (\<lambda>(items, rest). (string_of_items items, rest)) (parse_chars s)"

text \<open>
  A numeral is the longest text the grammar of JSON numbers allows: an optional minus
  sign, an integer part without a leading zero, an optional fraction and an optional
  exponent. The reader follows the grammar state by state.
\<close>

datatype numeral_state =
  Start | AfterMinus | Zero | IntDigits | AfterPoint | FracDigits | AfterE | AfterSign | ExpDigits

fun numeral_step :: "numeral_state \<Rightarrow> char \<Rightarrow> numeral_state option" where
  "numeral_step Start c =
     (if c = CHR ''-'' then Some AfterMinus
      else if c = CHR ''0'' then Some Zero
      else if is_digit c then Some IntDigits else None)"
| "numeral_step AfterMinus c =
     (if c = CHR ''0'' then Some Zero else if is_digit c then Some IntDigits else None)"
| "numeral_step Zero c =
     (if c = CHR ''.'' then Some AfterPoint
      else if c = CHR ''e'' \<or> c = CHR ''E'' then Some AfterE else None)"
| "numeral_step IntDigits c =
     (if is_digit c then Some IntDigits
      else if c = CHR ''.'' then Some AfterPoint
      else if c = CHR ''e'' \<or> c = CHR ''E'' then Some AfterE else None)"
| "numeral_step AfterPoint c = (if is_digit c then Some FracDigits else None)"
| "numeral_step FracDigits c =
     (if is_digit c then Some FracDigits
      else if c = CHR ''e'' \<or> c = CHR ''E'' then Some AfterE else None)"
| "numeral_step AfterE c =
     (if c = CHR ''+'' \<or> c = CHR ''-'' then Some AfterSign
      else if is_digit c then Some ExpDigits else None)"
| "numeral_step AfterSign c = (if is_digit c then Some ExpDigits else None)"
| "numeral_step ExpDigits c = (if is_digit c then Some ExpDigits else None)"

fun numeral_accepting :: "numeral_state \<Rightarrow> bool" where
  "numeral_accepting Zero = True"
| "numeral_accepting IntDigits = True"
| "numeral_accepting FracDigits = True"
| "numeral_accepting ExpDigits = True"
| "numeral_accepting st = False"

fun scan_numeral :: "numeral_state \<Rightarrow> string \<Rightarrow> (string \<times> string) option" where
  "scan_numeral st [] = (if numeral_accepting st then Some ([], []) else None)"
| "scan_numeral st (c # s) =
     (case numeral_step st c of
        Some st' \<Rightarrow> map_option (\<lambda>(lexeme, rest). (c # lexeme, rest)) (scan_numeral st' s)
      | None \<Rightarrow> if numeral_accepting st then Some ([], c # s) else None)"


text \<open>A number: the numeral at the front of the text and the number the engine reads it as.\<close>

definition parse_number :: "(string \<Rightarrow> number) \<Rightarrow> string \<Rightarrow> (json \<times> string) option" where
  "parse_number string_to_number s =
     map_option (\<lambda>(lexeme, rest). (JNum (string_to_number lexeme), rest)) (scan_numeral Start s)"

text \<open>
  A member read before the members \<open>kvs\<close> that follow it in the text: when its key
  comes again later, the later value wins and the key keeps its first place.
\<close>

definition add_member :: "string \<Rightarrow> json \<Rightarrow> (string \<times> json) list \<Rightarrow> (string \<times> json) list" where
  "add_member k v kvs =
     (case map_of kvs k of
        None \<Rightarrow> (k, v) # kvs
      | Some v' \<Rightarrow> (k, v') # filter (\<lambda>p. fst p \<noteq> k) kvs)"

text \<open>
  The three mutually recursive readers (a value; the elements of an array up to its
  closing bracket; the members of an object up to its closing brace) are one function
  with the reader as an argument. Each returns what it read and the rest of the
  text. Every recursive call is on a shorter text, or (from the elements to their first
  value) on the same text with the simpler reader, so \<open>None\<close> is always a rejection.
\<close>

datatype kind = Value | Elements | Members

partial_function (option) parse ::
  "(string \<Rightarrow> number) \<Rightarrow> kind \<Rightarrow> string \<Rightarrow> (json \<times> string) option" where
  "parse string_to_number k s =
     (case k of
        Value \<Rightarrow>
          (case skip_ws s of
             [] \<Rightarrow> None
           | c # r \<Rightarrow>
               if c = CHR ''['' then
                 (case skip_ws r of
                    [] \<Rightarrow> None
                  | c' # r' \<Rightarrow>
                      if c' = CHR '']'' then Some (JArr [], r')
                      else parse string_to_number Elements r)
               else if c = CHR ''{'' then
                 (case skip_ws r of
                    [] \<Rightarrow> None
                  | c' # r' \<Rightarrow>
                      if c' = CHR ''}'' then Some (JObj [], r')
                      else parse string_to_number Members r)
               else if c = dquote then
                 map_option (\<lambda>(str, rest). (JStr str, rest)) (parse_string r)
               else if prefix ''true'' (c # r) then Some (JBool True, drop 4 (c # r))
               else if prefix ''false'' (c # r) then Some (JBool False, drop 5 (c # r))
               else if prefix ''null'' (c # r) then Some (JNull, drop 4 (c # r))
               else parse_number string_to_number (c # r))
      | Elements \<Rightarrow>
          Option.bind (parse string_to_number Value s) (\<lambda>(v, r).
            case skip_ws r of
              [] \<Rightarrow> None
            | c # r' \<Rightarrow>
                if c = CHR '','' then
                  Option.bind (parse string_to_number Elements r') (\<lambda>(j, r'').
                    case j of JArr vs \<Rightarrow> Some (JArr (v # vs), r'') | _ \<Rightarrow> None)
                else if c = CHR '']'' then Some (JArr [v], r')
                else None)
      | Members \<Rightarrow>
          (case skip_ws s of
             [] \<Rightarrow> None
           | q # r \<Rightarrow>
               if q \<noteq> dquote then None
               else (case parse_string r of
                  None \<Rightarrow> None
                | Some (key, r1) \<Rightarrow>
                    (case skip_ws r1 of
                       [] \<Rightarrow> None
                     | c1 # r2 \<Rightarrow>
                         if c1 \<noteq> CHR '':'' then None
                         else Option.bind (parse string_to_number Value r2) (\<lambda>(v, r3).
                           case skip_ws r3 of
                             [] \<Rightarrow> None
                           | c3 # r4 \<Rightarrow>
                               if c3 = CHR '','' then
                                 Option.bind (parse string_to_number Members r4) (\<lambda>(j, r5).
                                   case j of
                                     JObj kvs \<Rightarrow> Some (JObj (add_member key v kvs), r5)
                                   | _ \<Rightarrow> None)
                               else if c3 = CHR ''}'' then Some (JObj [(key, v)], r4)
                               else None)))))"

declare parse.simps [code]

text \<open>The whole text must be one value; \<open>None\<close> is the thrown \<open>SyntaxError\<close>.\<close>

definition JSON_parse :: "(string \<Rightarrow> number) \<Rightarrow> string \<Rightarrow> json option" where
  "JSON_parse string_to_number s =
     (case parse string_to_number Value s of
        None \<Rightarrow> None
      | Some (v, rest) \<Rightarrow> if skip_ws rest = [] then Some v else None)"







definition exponent_value :: "string \<Rightarrow> int" where
  "exponent_value s =
     (if s \<noteq> [] \<and> hd s = CHR ''-'' then - int (digits_value (tl s))
      else if s \<noteq> [] \<and> hd s = CHR ''+'' then int (digits_value (tl s))
      else int (digits_value s))"

definition decimal_string_to_number :: "string \<Rightarrow> number" where
  "decimal_string_to_number lexeme =
     (let negative = (lexeme \<noteq> [] \<and> hd lexeme = CHR ''-'');
          body = (if negative then tl lexeme else lexeme);
          ip = takeWhile is_digit body;
          r1 = dropWhile is_digit body;
          has_fraction = (r1 \<noteq> [] \<and> hd r1 = CHR ''.'');
          fp = (if has_fraction then takeWhile is_digit (tl r1) else []);
          r2 = (if has_fraction then dropWhile is_digit (tl r1) else r1);
          ex = (if r2 = [] then 0 else exponent_value (tl r2));
          mantissa = real (digits_value ip) + real (digits_value fp) / 10 ^ length fp;
          magnitude = (if 0 \<le> ex then mantissa * 10 ^ nat ex else mantissa / 10 ^ nat (- ex))
      in Finite (if negative then - magnitude else magnitude))"

section \<open>The records as JavaScript values\<close>






text \<open>
  The other direction: a JavaScript value read at the type \<open>Verification[]\<close>. The source
  performs no such check (\<open>JSON.parse\<close> returns \<open>any\<close>); the readers say which values
  inhabit the interfaces, \<open>None\<close> meaning that the value has another shape.
\<close>

definition as_string :: "json option \<Rightarrow> string option" where
  "as_string j = (case j of Some (JStr s) \<Rightarrow> Some s | _ \<Rightarrow> None)"

definition as_number :: "json option \<Rightarrow> number option" where
  "as_number j = (case j of Some (JNum n) \<Rightarrow> Some n | _ \<Rightarrow> None)"

definition as_optional_string :: "json option \<Rightarrow> string option option" where
  "as_optional_string j =
     (case j of None \<Rightarrow> Some None | Some (JStr s) \<Rightarrow> Some (Some s) | _ \<Rightarrow> None)"

definition as_citation :: "json \<Rightarrow> Citation option" where
  "as_citation j =
     (case j of
        JObj kvs \<Rightarrow>
          Option.bind (as_string (map_of kvs ''title'')) (\<lambda>t.
          Option.bind (as_string (map_of kvs ''source'')) (\<lambda>s.
          Option.bind (as_string (map_of kvs ''url'')) (\<lambda>u.
          Option.bind (as_optional_string (map_of kvs ''publishedAt'')) (\<lambda>p.
          Option.bind (as_optional_string (map_of kvs ''summary'')) (\<lambda>m.
            Some \<lparr>title = t, source = s, url = u, publishedAt = p, summary = m\<rparr>)))))
      | _ \<Rightarrow> None)"

definition as_optional_citations :: "json option \<Rightarrow> Citation list option option" where
  "as_optional_citations j =
     (case j of
        None \<Rightarrow> Some None
      | Some (JArr xs) \<Rightarrow> map_option Some (those (map as_citation xs))
      | _ \<Rightarrow> None)"

definition as_result :: "json option \<Rightarrow> VerificationResult option" where
  "as_result j =
     (case j of
        Some (JObj kvs) \<Rightarrow>
          Option.bind (as_string (map_of kvs ''verdict'')) (\<lambda>v.
          Option.bind (as_number (map_of kvs ''confidence'')) (\<lambda>c.
          Option.bind (as_string (map_of kvs ''explanation'')) (\<lambda>e.
          Option.bind (as_optional_citations (map_of kvs ''citations'')) (\<lambda>cs.
          Option.bind (as_optional_string (map_of kvs ''language'')) (\<lambda>l.
          Option.bind (as_optional_string (map_of kvs ''model'')) (\<lambda>m.
          Option.bind (as_optional_string (map_of kvs ''processingTime'')) (\<lambda>p.
            Some \<lparr>verdict = v, confidence = c, explanation = e, citations = cs,
                  language = l, model = m, processingTime = p\<rparr>)))))))
      | _ \<Rightarrow> None)"

definition as_verification :: "json \<Rightarrow> Verification option" where
  "as_verification j =
     (case j of
        JObj kvs \<Rightarrow>
          Option.bind (as_string (map_of kvs ''id'')) (\<lambda>i.
          Option.bind (as_string (map_of kvs ''input'')) (\<lambda>inp.
          Option.bind (as_result (map_of kvs ''result'')) (\<lambda>r.
          Option.bind (as_string (map_of kvs ''timestamp'')) (\<lambda>t.
            Some \<lparr>id_str = i, input = inp, result = r, timestamp = t\<rparr>))))
      | _ \<Rightarrow> None)"

definition as_verifications :: "json \<Rightarrow> Verification list option" where
  "as_verifications j =
     (case j of JArr xs \<Rightarrow> those (map as_verification xs) | _ \<Rightarrow> None)"

section \<open>Persistence (the two effects of \<open>VerificationProvider\<close>)\<close>

text \<open>
  \<open>localStorage\<close>: either access to it throws (storage disabled), or it is a table of
  strings with room for values of up to \<open>quota\<close> characters. Exceptions are values.
\<close>

datatype js_error = SecurityError | QuotaExceededError | SyntaxError

datatype storage = Disabled | Enabled nat "string \<Rightarrow> string option"

fun getItem :: "storage \<Rightarrow> string \<Rightarrow> js_error + string option" where
  "getItem Disabled k = Inl SecurityError"
| "getItem (Enabled quota items) k = Inr (items k)"


definition STORAGE_KEY :: string where
  "STORAGE_KEY = ''healthcheck-verifications''"

text \<open>
  The load effect. The body of its \<open>try\<close> block either throws or ends, having dispatched
  \<open>LOAD_FROM_STORAGE\<close> with the parsed value (\<open>Some\<close>) or nothing; \<open>if (stored)\<close> skips
  \<open>null\<close> and the empty string. The engine's \<open>JSON.parse\<close> is an argument.
\<close>

definition load_try :: "(string \<Rightarrow> json option) \<Rightarrow> storage \<Rightarrow> js_error + json option" where
  "load_try parse_impl st =
     (case getItem st STORAGE_KEY of
        Inl e \<Rightarrow> Inl e
      | Inr None \<Rightarrow> Inr None
      | Inr (Some stored) \<Rightarrow>
          if stored = [] then Inr None
          else (case parse_impl stored of
                  None \<Rightarrow> Inl SyntaxError
                | Some verifications_v \<Rightarrow> Inr (Some verifications_v)))"

text \<open>
  With its \<open>catch\<close>: the effect returns the payload it dispatched, if any, and what it
  wrote to \<open>console.error\<close>. Nothing is thrown further.
\<close>

definition load_effect :: "(string \<Rightarrow> json option) \<Rightarrow> storage \<Rightarrow> json option \<times> js_error list" where
  "load_effect parse_impl st =
     (case load_try parse_impl st of Inl e \<Rightarrow> (None, [e]) | Inr d \<Rightarrow> (d, []))"

text \<open>
  The value of \<open>state.verifications\<close> once the load effect has run on the initial state:
  the reducer puts the dispatched payload in the place of the empty array.
\<close>

definition collection_after_load :: "(string \<Rightarrow> json option) \<Rightarrow> storage \<Rightarrow> json" where
  "collection_after_load parse_impl st =
     (case fst (load_effect parse_impl st) of None \<Rightarrow> JArr [] | Some payload \<Rightarrow> payload)"

text \<open>
  The same at the types of the source: the state after the load effect, when the payload
  is a \<open>Verification[]\<close>.
\<close>

definition rehydrate ::
  "(string \<Rightarrow> json option) \<Rightarrow> storage \<Rightarrow> VerificationState \<Rightarrow> VerificationState option" where
  "rehydrate parse_impl st state =
     (case fst (load_effect parse_impl st) of
        None \<Rightarrow> Some state
      | Some payload \<Rightarrow>
          map_option (\<lambda>vs. verificationReducer state (LOAD_FROM_STORAGE vs))
            (as_verifications payload))"




text \<open>A storage that holds one payload under the key of the provider.\<close>

definition storage_holding :: "string \<Rightarrow> storage" where
  "storage_holding payload = Enabled 5000000 (Map.empty(STORAGE_KEY \<mapsto> payload))"


section \<open>Properties of the store\<close>

lemma verifications_dispatch_adds:
  "verifications (dispatch_all state (map ADD_VERIFICATION rs)) = rev rs @ verifications state"
  unfolding dispatch_all_def
  by (induction rs arbitrary: state) simp_all

lemma find_distinct_ids:
  assumes "distinct (map id_str vs)" and "r \<in> set vs"
  shows "find (\<lambda>v. id_str v = id_str r) vs = Some r"
  using assms
proof (induction vs)
  case Nil
  then show ?case by simp
next
  case (Cons v vs)
  show ?case
  proof (cases "v = r")
    case True
    then show ?thesis by simp
  next
    case False
    with Cons.prems have "r \<in> set vs" by simp
    with Cons.prems have "id_str v \<noteq> id_str r" by force
    with Cons \<open>r \<in> set vs\<close> show ?thesis by simp
  qed
qed

text \<open>
  C1. After any sequence of add calls with pairwise distinct ids on the initial (empty)
  store, the collection is the added records with the last added first, and
  \<open>get\<close> of the id of any added record returns exactly that record. On any state, one
  add puts its record at the front.
\<close>

theorem add_get_most_recent_first:
  assumes "distinct (map id_str rs)"
  shows "verifications (dispatch_all initialState (map ADD_VERIFICATION rs)) = rev rs
       \<and> (\<forall>r \<in> set rs.
            getVerification (dispatch_all initialState (map ADD_VERIFICATION rs)) (id_str r) = Some r)
       \<and> verifications (addVerification r0 state) = r0 # verifications state"
proof -
  have vs: "verifications (dispatch_all initialState (map ADD_VERIFICATION rs)) = rev rs"
    by (simp add: verifications_dispatch_adds initialState_def)
  have "distinct (map id_str (rev rs))"
    using assms by (simp add: rev_map [symmetric])
  then have "\<forall>r \<in> set rs. find (\<lambda>v. id_str v = id_str r) (rev rs) = Some r"
    using find_distinct_ids [of "rev rs"] by simp
  with vs show ?thesis by (simp add: getVerification_def addVerification_def)
qed

theorem add_get_most_recent_first_witness:
  "distinct (map id_str [sample ''1'' ''claim A'', sample ''2'' ''claim B''])
   \<and> verifications (dispatch_all initialState
        (map ADD_VERIFICATION [sample ''1'' ''claim A'', sample ''2'' ''claim B'']))
      = [sample ''2'' ''claim B'', sample ''1'' ''claim A'']
   \<and> getVerification (dispatch_all initialState
        (map ADD_VERIFICATION [sample ''1'' ''claim A'', sample ''2'' ''claim B''])) ''1''
      = Some (sample ''1'' ''claim A'')"
proof -
  have d: "distinct (map id_str [sample ''1'' ''claim A'', sample ''2'' ''claim B''])"
    by (simp add: sample_def)
  show ?thesis
    using d add_get_most_recent_first [OF d] by (simp add: sample_def)
qed

lemma find_filter_none: "find (\<lambda>v. id_str v = i) (filter (\<lambda>v. id_str v \<noteq> i) vs) = None"
  by (induction vs) simp_all

lemma filter_absent: "\<forall>v \<in> set vs. id_str v \<noteq> i \<Longrightarrow> filter (\<lambda>v. id_str v \<noteq> i) vs = vs"
  by (induction vs) simp_all

lemma remove_first_spec_distinct:
  "distinct (map id_str vs) \<Longrightarrow> remove_first_spec i vs = filter (\<lambda>v. id_str v \<noteq> i) vs"
proof (induction vs)
  case Nil
  then show ?case by simp
next
  case (Cons v vs)
  show ?case
  proof (cases "id_str v = i")
    case True
    from Cons.prems have "id_str v \<notin> id_str ` set vs" by simp
    with True have "\<forall>u \<in> set vs. id_str u \<noteq> i" by blast
    then have "filter (\<lambda>v. id_str v \<noteq> i) vs = vs" by (rule filter_absent)
    with True show ?thesis by simp
  next
    case False
    with Cons show ?thesis by simp
  qed
qed

text \<open>
  C2 (amended). For every collection state and every id string, \<open>remove(id)\<close> deletes
  every record whose id equals the argument and keeps the other records in their order;
  after it \<open>get(id)\<close> returns absent; when no record has that id the state is unchanged
  (the reducer has no failing branch); and when the ids of the collection are distinct the
  result is the removal of the first, and only, matching record.
\<close>

theorem remove_every_match:
  "verifications (removeVerification i state) = filter (\<lambda>v. id_str v \<noteq> i) (verifications state)
   \<and> getVerification (removeVerification i state) i = None
   \<and> ((\<forall>v \<in> set (verifications state). id_str v \<noteq> i) \<longrightarrow> removeVerification i state = state)
   \<and> (distinct (map id_str (verifications state)) \<longrightarrow>
        verifications (removeVerification i state) = remove_first_spec i (verifications state))"
  by (simp add: removeVerification_def getVerification_def find_filter_none filter_absent
      remove_first_spec_distinct)

theorem remove_every_match_witness:
  "''3'' \<notin> id_str ` set (verifications \<lparr>verifications = [sample ''2'' ''claim B'', sample ''1'' ''claim A'']\<rparr>)
   \<and> distinct (map id_str (verifications \<lparr>verifications = [sample ''2'' ''claim B'', sample ''1'' ''claim A'']\<rparr>))
   \<and> removeVerification ''3'' \<lparr>verifications = [sample ''2'' ''claim B'', sample ''1'' ''claim A'']\<rparr>
       = \<lparr>verifications = [sample ''2'' ''claim B'', sample ''1'' ''claim A'']\<rparr>
   \<and> verifications (removeVerification ''2'' \<lparr>verifications = [sample ''2'' ''claim B'', sample ''1'' ''claim A'']\<rparr>)
       = [sample ''1'' ''claim A'']
   \<and> getVerification (removeVerification ''2'' \<lparr>verifications = [sample ''2'' ''claim B'', sample ''1'' ''claim A'']\<rparr>) ''2''
       = None"
  using remove_every_match [of "''3''" "\<lparr>verifications = [sample ''2'' ''claim B'', sample ''1'' ''claim A'']\<rparr>"]
    remove_every_match [of "''2''" "\<lparr>verifications = [sample ''2'' ''claim B'', sample ''1'' ''claim A'']\<rparr>"]
  by (simp add: sample_def)

text \<open>
  With two records of one id in the collection (add performs no uniqueness check),
  \<open>remove\<close> deletes both, where the wording of the specification removes the first only.
\<close>

theorem remove_first_only_counterexample:
  "verifications (removeVerification ''1''
      \<lparr>verifications = [sample ''1'' ''claim A'', sample ''1'' ''claim B'']\<rparr>)
   \<noteq> remove_first_spec ''1'' [sample ''1'' ''claim A'', sample ''1'' ''claim B'']"
  by (simp add: removeVerification_def sample_def)

lemma reducer_records:
  "v \<in> set (verifications (verificationReducer state a))
   \<Longrightarrow> v \<in> set (verifications state) \<or> v \<in> supplied a"
  by (cases a) auto

lemma dispatch_all_records:
  "v \<in> set (verifications (dispatch_all state acts))
   \<Longrightarrow> v \<in> set (verifications state) \<or> (\<exists>a \<in> set acts. v \<in> supplied a)"
proof (induction acts arbitrary: state)
  case Nil
  then show ?case by (simp add: dispatch_all_def)
next
  case (Cons a acts)
  from Cons.prems have "v \<in> set (verifications (dispatch_all (verificationReducer state a) acts))"
    by (simp add: dispatch_all_def)
  then have "v \<in> set (verifications (verificationReducer state a))
      \<or> (\<exists>b \<in> set acts. v \<in> supplied b)"
    by (rule Cons.IH)
  then show ?case using reducer_records [of v state a] by auto
qed

text \<open>
  C8. No store operation updates a record in part: whatever the state and the action
  (add, remove, clear, load from storage), every record of the collection afterwards is,
  with all its fields, a record of the collection before or a record the action itself
  supplied. A record of the old collection is therefore kept as it was or gone, and
  after any sequence of operations the store holds only records exactly as they were
  handed to it.
\<close>

theorem no_partial_update:
  "(v \<in> set (verifications (verificationReducer state a))
      \<longrightarrow> v \<in> set (verifications state) \<or> v \<in> supplied a)
   \<and> (v \<in> set (verifications (dispatch_all state acts))
      \<longrightarrow> v \<in> set (verifications state) \<or> (\<exists>b \<in> set acts. v \<in> supplied b))"
  using reducer_records [of v state a] dispatch_all_records [of v state acts] by blast

theorem no_partial_update_witness:
  "sample ''1'' ''claim A'' \<in> set (verifications (verificationReducer
       \<lparr>verifications = [sample ''2'' ''claim B'', sample ''1'' ''claim A'']\<rparr> (REMOVE_VERIFICATION ''2'')))
   \<and> sample ''1'' ''claim A'' \<in> set (verifications \<lparr>verifications = [sample ''2'' ''claim B'', sample ''1'' ''claim A'']\<rparr>)
   \<and> sample ''3'' ''claim C'' \<in> set (verifications (dispatch_all
       \<lparr>verifications = [sample ''2'' ''claim B'', sample ''1'' ''claim A'']\<rparr>
       [CLEAR_HISTORY, ADD_VERIFICATION (sample ''3'' ''claim C'')]))
   \<and> sample ''3'' ''claim C'' \<in> supplied (ADD_VERIFICATION (sample ''3'' ''claim C''))"
  using no_partial_update [of "sample ''1'' ''claim A''"
      "\<lparr>verifications = [sample ''2'' ''claim B'', sample ''1'' ''claim A'']\<rparr>"
      "REMOVE_VERIFICATION ''2''" "[CLEAR_HISTORY, ADD_VERIFICATION (sample ''3'' ''claim C'')]"]
    no_partial_update [of "sample ''3'' ''claim C''"
      "\<lparr>verifications = [sample ''2'' ''claim B'', sample ''1'' ''claim A'']\<rparr>"
      "REMOVE_VERIFICATION ''2''" "[CLEAR_HISTORY, ADD_VERIFICATION (sample ''3'' ''claim C'')]"]
  by (simp add: sample_def dispatch_all_def)

lemma find_append_first:
  "find P (xs @ ys) = (case find P xs of None \<Rightarrow> find P ys | Some x \<Rightarrow> Some x)"
  by (induction xs) simp_all

text \<open>
  C10. When several records of one id have been added, \<open>get(id)\<close> returns the one added
  last: if \<open>r\<close> is added after the records \<open>earlier\<close> (any ids, on any state) and no record
  added later has the id of \<open>r\<close>, then \<open>get\<close> of that id is \<open>r\<close>, the first match from the
  front of the collection.
\<close>

theorem get_most_recent_duplicate:
  assumes "\<forall>v \<in> set later. id_str v \<noteq> id_str r"
  shows "getVerification (dispatch_all state (map ADD_VERIFICATION (earlier @ r # later))) (id_str r)
         = Some r"
proof -
  have "find (\<lambda>v. id_str v = id_str r) (rev later) = None"
    using assms by (simp add: find_None_iff)
  then show ?thesis
    by (simp only: getVerification_def verifications_dispatch_adds) (simp add: find_append_first)
qed

theorem get_most_recent_duplicate_witness:
  "id_str (sample ''1'' ''claim B'') \<notin> id_str ` set [sample ''2'' ''claim C'']
   \<and> verifications (dispatch_all initialState (map ADD_VERIFICATION
        ([sample ''1'' ''claim A''] @ sample ''1'' ''claim B'' # [sample ''2'' ''claim C''])))
      = [sample ''2'' ''claim C'', sample ''1'' ''claim B'', sample ''1'' ''claim A'']
   \<and> getVerification (dispatch_all initialState (map ADD_VERIFICATION
        ([sample ''1'' ''claim A''] @ sample ''1'' ''claim B'' # [sample ''2'' ''claim C''])))
        (id_str (sample ''1'' ''claim B''))
      = Some (sample ''1'' ''claim B'')"
proof -
  have h: "\<forall>v \<in> set [sample ''2'' ''claim C'']. id_str v \<noteq> id_str (sample ''1'' ''claim B'')"
    by (simp add: sample_def)
  show ?thesis
    using h get_most_recent_duplicate [OF h, of initialState "[sample ''1'' ''claim A'']"]
    by (simp add: dispatch_all_def initialState_def)
qed

section \<open>Properties of the fallbacks and of the verdict configuration\<close>

lemma char_of_eq_of_char: "k < 256 \<Longrightarrow> char_of (k::nat) = d \<longleftrightarrow> k = of_char d"
  by (auto simp: char_of_eq_iff take_bit_eq_mod)

lemma of_char_neq: "(of_char c :: nat) \<noteq> of_char d \<longleftrightarrow> c \<noteq> d"
  by simp

lemma lower_char_eq_iff:
  assumes "lower_char d = d"
  shows "lower_char c = d \<longleftrightarrow> same_letter c d"
proof -
  define n :: nat where "n = of_char c"
  define m :: nat where "m = of_char d"
  have n: "n < 256" and m: "m < 256" by (simp_all add: n_def m_def)
  have cd: "c = d \<longleftrightarrow> n = m" by (simp add: n_def m_def)
  have notupper: "\<not> (65 \<le> m \<and> m \<le> 90)"
  proof
    assume a: "65 \<le> m \<and> m \<le> 90"
    with assms have "char_of (m + 32) = d" by (simp add: lower_char_def m_def)
    with a m have "m + 32 = m" by (simp add: char_of_eq_of_char m_def)
    then show False by simp
  qed
  have low: "lower_char c = d \<longleftrightarrow> (if 65 \<le> n \<and> n \<le> 90 then n + 32 = m else n = m)"
    using n by (auto simp: lower_char_def Let_def char_of_eq_of_char n_def m_def)
  have up: "c = upper_char d \<longleftrightarrow> (if 97 \<le> m \<and> m \<le> 122 then n = m - 32 else n = m)"
    using m by (auto simp: upper_char_def Let_def char_of_eq_of_char n_def m_def eq_commute [of c])
  show ?thesis
    unfolding same_letter_def low up cd using notupper by auto
qed

lemma toLowerCase_eq_iff:
  assumes "toLowerCase w = w"
  shows "toLowerCase s = w \<longleftrightarrow> equals_any_case s w"
  using assms
proof (induction s arbitrary: w)
  case Nil
  then show ?case by (auto simp: toLowerCase_def equals_any_case_def)
next
  case (Cons c s)
  show ?case
  proof (cases w)
    case Nil
    then show ?thesis by (simp add: toLowerCase_def equals_any_case_def)
  next
    case (Cons d w')
    with Cons.prems have d: "lower_char d = d" and w': "toLowerCase w' = w'"
      by (simp_all add: toLowerCase_def)
    from Cons.IH [OF w'] lower_char_eq_iff [OF d, of c] Cons show ?thesis
      by (simp add: toLowerCase_def equals_any_case_def)
  qed
qed

lemma prefix_toLowerCase_iff:
  assumes "toLowerCase w = w"
  shows "prefix w (toLowerCase s) \<longleftrightarrow> starts_any_case s w"
  using assms
proof (induction s w rule: starts_any_case.induct)
  case (1 s)
  then show ?case by simp
next
  case (2 d w)
  then show ?case by (simp add: toLowerCase_def)
next
  case (3 c s d w)
  from "3.prems" have d: "lower_char d = d" and w: "toLowerCase w = w"
    by (simp_all add: toLowerCase_def)
  from "3.IH" [OF w] lower_char_eq_iff [OF d, of c] show ?case
    by (auto simp add: toLowerCase_def)
qed

lemma includes_toLowerCase_iff:
  assumes "toLowerCase w = w"
  shows "includes_str (toLowerCase s) w \<longleftrightarrow> contains_any_case s w"
proof (induction s)
  case Nil
  then show ?case by (cases w) (simp_all add: toLowerCase_def)
next
  case (Cons c s)
  have "prefix w (toLowerCase (c # s)) \<longleftrightarrow> starts_any_case (c # s) w"
    by (rule prefix_toLowerCase_iff [OF assms])
  with Cons show ?case by (simp add: toLowerCase_def)
qed

text \<open>\<open>includes_str\<close> is containment as a contiguous run.\<close>

lemma includes_str_iff: "includes_str s w \<longleftrightarrow> (\<exists>p q. s = p @ w @ q)"
proof (induction s)
  case Nil
  then show ?case by auto
next
  case (Cons c s)
  show ?case
  proof
    assume "includes_str (c # s) w"
    then consider "prefix w (c # s)" | "includes_str s w" by auto
    then show "\<exists>p q. c # s = p @ w @ q"
    proof cases
      case 1
      then obtain q where "c # s = w @ q" by (auto simp: prefix_def)
      then have "c # s = [] @ w @ q" by simp
      then show ?thesis by blast
    next
      case 2
      with Cons obtain p q where "s = p @ w @ q" by auto
      then have "c # s = (c # p) @ w @ q" by simp
      then show ?thesis by blast
    qed
  next
    assume "\<exists>p q. c # s = p @ w @ q"
    then obtain p q where pq: "c # s = p @ w @ q" by auto
    show "includes_str (c # s) w"
    proof (cases p)
      case Nil
      with pq have "prefix w (c # s)" by (simp add: prefix_def)
      then show ?thesis by simp
    next
      case (Cons a p')
      with pq have "s = p' @ w @ q" by simp
      with Cons.IH show ?thesis by auto
    qed
  qed
qed

lemma lower_words:
  "toLowerCase ''vaccine'' = ''vaccine''" "toLowerCase ''autism'' = ''autism''"
  "toLowerCase ''lemon'' = ''lemon''" "toLowerCase ''true'' = ''true''"
  "toLowerCase ''misleading'' = ''misleading''"
  by (simp_all add: toLowerCase_def lower_char_def)


lemma unit_interval_next: "unit_interval g \<Longrightarrow> unit_interval (snd (Math_random g))"
  by (simp add: unit_interval_def Math_random_def)

lemma unit_interval_draw: "unit_interval g \<Longrightarrow> 0 \<le> fst (Math_random g) \<and> fst (Math_random g) < 1"
  by (simp add: unit_interval_def Math_random_def)

lemma slice0_nonneg: "0 \<le> e \<Longrightarrow> slice0 e xs = take (nat e) xs"
  by (simp add: slice0_def)

lemma citation_count_range:
  fixes r :: real
  assumes "0 \<le> r" and "r < 1"
  shows "\<exists>k. 1 \<le> k \<and> k \<le> 3 \<and> slice0 \<lfloor>1 + r * 3\<rfloor> xs = take k xs"
proof -
  define e where "e = \<lfloor>1 + r * 3\<rfloor>"
  have lo: "1 \<le> e" unfolding e_def using assms by (simp add: le_floor_iff)
  have hi: "e \<le> 3" unfolding e_def using assms by (simp add: floor_le_iff)
  from lo have "slice0 e xs = take (nat e) xs" by (simp add: slice0_nonneg)
  moreover from lo hi have "1 \<le> nat e \<and> nat e \<le> 3" by linarith
  ultimately show ?thesis unfolding e_def by blast
qed

text \<open>
  C5 (amended). For every input that contains both "vaccine" and "autism" in any letter
  case and every outcome of the random draws, the fallback returns the verdict
  \<open>misleading\<close> with confidence exactly 95 and the canned explanation; its citations are
  the first \<open>k\<close> of the three fixed citations, where \<open>k\<close> is 1, 2 or 3 as drawn.
\<close>

theorem fallback_vaccine_autism:
  assumes "contains_any_case inp ''vaccine''" and "contains_any_case inp ''autism''"
    and "unit_interval g"
  shows "verdict (fst (getMockVerificationResult inp g)) = ''misleading''
       \<and> confidence (fst (getMockVerificationResult inp g)) = Finite 95
       \<and> explanation (fst (getMockVerificationResult inp g)) = explanation_vaccine
       \<and> (\<exists>k. 1 \<le> k \<and> k \<le> 3
             \<and> citations (fst (getMockVerificationResult inp g)) = Some (take k mockCitations))"
proof -
  have v: "includes_str (toLowerCase inp) ''vaccine''"
    using assms(1) by (simp add: includes_toLowerCase_iff lower_words)
  have a: "includes_str (toLowerCase inp) ''autism''"
    using assms(2) by (simp add: includes_toLowerCase_iff lower_words)
  obtain d g1 where g1: "Math_random g = (d, g1)" by (cases "Math_random g")
  obtain r3 g3 where g3: "Math_random g1 = (r3, g3)" by (cases "Math_random g1")
  obtain r4 g4 where g4: "Math_random g3 = (r4, g4)" by (cases "Math_random g3")
  have "unit_interval g1" using unit_interval_next [OF assms(3)] g1 by simp
  then have "0 \<le> r3 \<and> r3 < 1" using unit_interval_draw [of g1] g3 by simp
  then obtain k where k: "1 \<le> k" "k \<le> 3" "slice0 \<lfloor>1 + r3 * 3\<rfloor> mockCitations = take k mockCitations"
    using citation_count_range by blast
  have "fst (getMockVerificationResult inp g) =
      \<lparr>verdict = ''misleading'', confidence = Finite 95, explanation = explanation_vaccine,
       citations = Some (take k mockCitations), language = Some ''English'',
       model = Some ''BioBERT + GPT-4'', processingTime = Some (toFixed1 (2 + r4 * 2) @ ''s'')\<rparr>"
    using v a k(3) by (simp add: getMockVerificationResult_def g1 g3 g4)
  with k show ?thesis by auto
qed


lemmas eval_strings = toLowerCase_def lower_char_def upper_char_def same_letter_def
  char_of_def bit_Suc_0_iff

theorem fallback_vaccine_autism_witness:
  "contains_any_case ''Vaccines cause AUTISM'' ''vaccine''
   \<and> contains_any_case ''Vaccines cause AUTISM'' ''autism''
   \<and> unit_interval (constant_source (1 / 2))
   \<and> verdict (fst (getMockVerificationResult ''Vaccines cause AUTISM'' (constant_source (1 / 2))))
        = ''misleading''
   \<and> confidence (fst (getMockVerificationResult ''Vaccines cause AUTISM'' (constant_source (1 / 2))))
        = Finite 95"
proof -
  have h1: "contains_any_case ''Vaccines cause AUTISM'' ''vaccine''"
    by (simp add: eval_strings)
  have h2: "contains_any_case ''Vaccines cause AUTISM'' ''autism''"
    by (simp add: eval_strings)
  have h3: "unit_interval (constant_source (1 / 2))"
    by (simp add: unit_interval_def constant_source_def)
  show ?thesis
    using h1 h2 h3 fallback_vaccine_autism [OF h1 h2 h3] by simp
qed

text \<open>
  The number of citations is not fixed at two: the slice of the citation list is drawn
  for every branch alike. With every draw equal to 0 the vaccine/autism answer carries
  one citation.
\<close>

theorem fallback_vaccine_autism_two_citations_counterexample:
  "contains_any_case ''Vaccines cause AUTISM'' ''vaccine''
   \<and> contains_any_case ''Vaccines cause AUTISM'' ''autism''
   \<and> unit_interval (constant_source 0)
   \<and> map_option length
        (citations (fst (getMockVerificationResult ''Vaccines cause AUTISM'' (constant_source 0))))
      = Some 1"
proof -
  have h1: "contains_any_case ''Vaccines cause AUTISM'' ''vaccine''"
    by (simp add: eval_strings)
  have h2: "contains_any_case ''Vaccines cause AUTISM'' ''autism''"
    by (simp add: eval_strings)
  have h3: "unit_interval (constant_source 0)"
    by (simp add: unit_interval_def constant_source_def)
  have low: "toLowerCase ''Vaccines cause AUTISM'' = ''vaccines cause autism''"
    by (simp add: eval_strings)
  have "citations (fst (getMockVerificationResult ''Vaccines cause AUTISM'' (constant_source 0)))
        = Some (take 1 mockCitations)"
    by (simp add: getMockVerificationResult_def low Math_random_def constant_source_def slice0_def)
  then show ?thesis using h1 h2 h3 by (simp add: mockCitations_def)
qed

text \<open>
  C6 (amended). For every input that contains "lemon" in any letter case but not both
  "vaccine" and "autism", and every outcome of the random draws, the fallback returns the
  verdict \<open>needs review\<close> with confidence exactly 72 and the canned explanation; its
  citations are the first \<open>k\<close> of the three fixed citations, where \<open>k\<close> is 1, 2 or 3 as
  drawn.
\<close>

theorem fallback_lemon:
  assumes "contains_any_case inp ''lemon''"
    and "\<not> (contains_any_case inp ''vaccine'' \<and> contains_any_case inp ''autism'')"
    and "unit_interval g"
  shows "verdict (fst (getMockVerificationResult inp g)) = ''needs review''
       \<and> confidence (fst (getMockVerificationResult inp g)) = Finite 72
       \<and> explanation (fst (getMockVerificationResult inp g)) = explanation_lemon
       \<and> (\<exists>k. 1 \<le> k \<and> k \<le> 3
             \<and> citations (fst (getMockVerificationResult inp g)) = Some (take k mockCitations))"
proof -
  have l: "includes_str (toLowerCase inp) ''lemon''"
    using assms(1) by (simp add: includes_toLowerCase_iff lower_words)
  have va: "\<not> (includes_str (toLowerCase inp) ''vaccine'' \<and> includes_str (toLowerCase inp) ''autism'')"
    using assms(2) by (simp add: includes_toLowerCase_iff lower_words)
  obtain d g1 where g1: "Math_random g = (d, g1)" by (cases "Math_random g")
  obtain r3 g3 where g3: "Math_random g1 = (r3, g3)" by (cases "Math_random g1")
  obtain r4 g4 where g4: "Math_random g3 = (r4, g4)" by (cases "Math_random g3")
  have "unit_interval g1" using unit_interval_next [OF assms(3)] g1 by simp
  then have "0 \<le> r3 \<and> r3 < 1" using unit_interval_draw [of g1] g3 by simp
  then obtain k where k: "1 \<le> k" "k \<le> 3" "slice0 \<lfloor>1 + r3 * 3\<rfloor> mockCitations = take k mockCitations"
    using citation_count_range by blast
  have "fst (getMockVerificationResult inp g) =
      \<lparr>verdict = ''needs review'', confidence = Finite 72, explanation = explanation_lemon,
       citations = Some (take k mockCitations), language = Some ''English'',
       model = Some ''BioBERT + GPT-4'', processingTime = Some (toFixed1 (2 + r4 * 2) @ ''s'')\<rparr>"
    using l va k(3) by (auto simp add: getMockVerificationResult_def g1 g3 g4)
  with k show ?thesis by auto
qed

theorem fallback_lemon_witness:
  "contains_any_case ''Does LEMON water boost metabolism?'' ''lemon''
   \<and> \<not> (contains_any_case ''Does LEMON water boost metabolism?'' ''vaccine''
         \<and> contains_any_case ''Does LEMON water boost metabolism?'' ''autism'')
   \<and> unit_interval (constant_source (1 / 2))
   \<and> verdict (fst (getMockVerificationResult ''Does LEMON water boost metabolism?'' (constant_source (1 / 2))))
        = ''needs review''
   \<and> confidence (fst (getMockVerificationResult ''Does LEMON water boost metabolism?'' (constant_source (1 / 2))))
        = Finite 72"
proof -
  have h1: "contains_any_case ''Does LEMON water boost metabolism?'' ''lemon''"
    by (simp add: eval_strings)
  have h2: "\<not> (contains_any_case ''Does LEMON water boost metabolism?'' ''vaccine''
         \<and> contains_any_case ''Does LEMON water boost metabolism?'' ''autism'')"
    by (simp add: eval_strings)
  have h3: "unit_interval (constant_source (1 / 2))"
    by (simp add: unit_interval_def constant_source_def)
  show ?thesis
    using h1 h2 h3 fallback_lemon [OF h1 h2 h3] by simp
qed

text \<open>
  The number of citations is not fixed at one: with every draw equal to 1/2 the lemon
  answer carries two citations.
\<close>

theorem fallback_lemon_one_citation_counterexample:
  "contains_any_case ''Does LEMON water boost metabolism?'' ''lemon''
   \<and> \<not> (contains_any_case ''Does LEMON water boost metabolism?'' ''vaccine''
         \<and> contains_any_case ''Does LEMON water boost metabolism?'' ''autism'')
   \<and> unit_interval (constant_source (1 / 2))
   \<and> map_option length
        (citations (fst (getMockVerificationResult ''Does LEMON water boost metabolism?''
           (constant_source (1 / 2)))))
      = Some 2"
proof -
  have h1: "contains_any_case ''Does LEMON water boost metabolism?'' ''lemon''"
    by (simp add: eval_strings)
  have h2: "\<not> (contains_any_case ''Does LEMON water boost metabolism?'' ''vaccine''
         \<and> contains_any_case ''Does LEMON water boost metabolism?'' ''autism'')"
    by (simp add: eval_strings)
  have h3: "unit_interval (constant_source (1 / 2))"
    by (simp add: unit_interval_def constant_source_def)
  have low: "toLowerCase ''Does LEMON water boost metabolism?'' = ''does lemon water boost metabolism?''"
    by (simp add: eval_strings)
  have "citations (fst (getMockVerificationResult ''Does LEMON water boost metabolism?''
           (constant_source (1 / 2))))
        = Some (take 2 mockCitations)"
    by (simp add: getMockVerificationResult_def low Math_random_def constant_source_def slice0_def)
  then show ?thesis using h1 h2 h3 by (simp add: mockCitations_def)
qed


lemma shuffle_comparator_source:
  "unit_interval g \<Longrightarrow> unit_interval (snd (shuffle_comparator a b g))"
  by (simp add: shuffle_comparator_def unit_interval_def Math_random_def)

lemma insert_by_shuffle:
  "unit_interval g \<Longrightarrow>
     mset (fst (insert_by shuffle_comparator x ys g)) = add_mset x (mset ys)
     \<and> unit_interval (snd (insert_by shuffle_comparator x ys g))"
proof (induction ys arbitrary: g)
  case Nil
  then show ?case by simp
next
  case (Cons y ys)
  obtain c g' where c: "shuffle_comparator x y g = (c, g')" by (cases "shuffle_comparator x y g")
  have g': "unit_interval g'"
    using shuffle_comparator_source [OF Cons.prems, of x y] c by simp
  obtain zs g'' where z: "insert_by shuffle_comparator x ys g' = (zs, g'')"
    by (cases "insert_by shuffle_comparator x ys g'")
  from Cons.IH [OF g'] z have "mset zs = add_mset x (mset ys)" and "unit_interval g''"
    by simp_all
  with c z g' show ?case by simp
qed

lemma insertion_sort_shuffle:
  "unit_interval g \<Longrightarrow>
     mset (fst (insertion_sort shuffle_comparator xs g)) = mset xs
     \<and> unit_interval (snd (insertion_sort shuffle_comparator xs g))"
proof (induction xs)
  case Nil
  then show ?case by simp
next
  case (Cons x xs)
  obtain ys g' where y: "insertion_sort shuffle_comparator xs g = (ys, g')"
    by (cases "insertion_sort shuffle_comparator xs g")
  from Cons y have "mset ys = mset xs" and g': "unit_interval g'" by simp_all
  with insert_by_shuffle [OF g', of x ys] y show ?case by simp
qed

lemma insertion_sort_well_behaved: "well_behaved_sort insertion_sort"
  unfolding well_behaved_sort_def using insertion_sort_shuffle by blast

lemma fixture_ids:
  "\<forall>a \<in> set mockNewsArticles. article_id a \<in> {''1'', ''2'', ''3'', ''4'', ''5''}"
  by (simp add: mockNewsArticles_def)

lemma fixture_length: "length mockNewsArticles = 5"
  by (simp add: mockNewsArticles_def)

lemma news_fallback_is_permutation:
  assumes "well_behaved_sort sort_impl" and "unit_interval g"
  shows "mset (fst (getMockNewsArticles sort_impl g)) = mset mockNewsArticles"
proof -
  obtain d g1 where g1: "Math_random g = (d, g1)" by (cases "Math_random g")
  obtain shuffled g2 where sh: "sort_impl shuffle_comparator mockNewsArticles g1 = (shuffled, g2)"
    by (cases "sort_impl shuffle_comparator mockNewsArticles g1")
  obtain r g3 where g3: "Math_random g2 = (r, g3)" by (cases "Math_random g2")
  have u1: "unit_interval g1" using unit_interval_next [OF assms(2)] g1 by simp
  from assms(1) u1 sh have m: "mset shuffled = mset mockNewsArticles" and u2: "unit_interval g2"
    by (auto simp: well_behaved_sort_def dest!: spec [of _ mockNewsArticles] spec [of _ g1])
  from m have len: "length shuffled = 5"
    using fixture_length by (metis size_mset)
  have "0 \<le> r" using unit_interval_draw [OF u2] g3 by simp
  then have e: "5 \<le> 5 + \<lfloor>r * 3\<rfloor>" by simp
  then have "slice0 (5 + \<lfloor>r * 3\<rfloor>) shuffled = take (nat (5 + \<lfloor>r * 3\<rfloor>)) shuffled"
    by (intro slice0_nonneg) linarith
  moreover from e len have "length shuffled \<le> nat (5 + \<lfloor>r * 3\<rfloor>)" by linarith
  ultimately have "slice0 (5 + \<lfloor>r * 3\<rfloor>) shuffled = shuffled" by simp
  then show ?thesis using m by (simp add: getMockNewsArticles_def g1 sh g3)
qed

text \<open>
  C7. Whatever the engine's sort (as long as it permutes the array and hands the random
  source on) and whatever the draws, the news fallback returns between 5 and 7 articles,
  each of them one of the five fixture articles, whose ids are "1" to "5". (The fixture
  has five articles, so the length is in fact always 5.)
\<close>

theorem news_fallback_length_and_ids:
  assumes "well_behaved_sort sort_impl" and "unit_interval g"
  shows "5 \<le> length (fst (getMockNewsArticles sort_impl g))
       \<and> length (fst (getMockNewsArticles sort_impl g)) \<le> 7
       \<and> (\<forall>a \<in> set (fst (getMockNewsArticles sort_impl g)).
             a \<in> set mockNewsArticles \<and> article_id a \<in> {''1'', ''2'', ''3'', ''4'', ''5''})"
proof -
  have m: "mset (fst (getMockNewsArticles sort_impl g)) = mset mockNewsArticles"
    by (rule news_fallback_is_permutation [OF assms])
  then have "length (fst (getMockNewsArticles sort_impl g)) = 5"
    using fixture_length by (metis size_mset)
  moreover from m have "set (fst (getMockNewsArticles sort_impl g)) = set mockNewsArticles"
    by (rule mset_eq_setD)
  ultimately show ?thesis using fixture_ids by simp
qed

theorem news_fallback_length_and_ids_witness:
  "well_behaved_sort (insertion_sort :: NewsArticle array_sort)
   \<and> unit_interval (constant_source (1 / 4))
   \<and> map article_id (fst (getMockNewsArticles insertion_sort (constant_source (1 / 4))))
       = [''5'', ''4'', ''3'', ''2'', ''1'']
   \<and> 5 \<le> length (fst (getMockNewsArticles insertion_sort (constant_source (1 / 4))))
   \<and> length (fst (getMockNewsArticles insertion_sort (constant_source (1 / 4)))) \<le> 7"
proof -
  have h1: "well_behaved_sort (insertion_sort :: NewsArticle array_sort)"
    by (rule insertion_sort_well_behaved)
  have h2: "unit_interval (constant_source (1 / 4))"
    by (simp add: unit_interval_def constant_source_def)
  have "map article_id (fst (getMockNewsArticles insertion_sort (constant_source (1 / 4))))
       = [''5'', ''4'', ''3'', ''2'', ''1'']"
    by (simp add: getMockNewsArticles_def mockNewsArticles_def shuffle_comparator_def
        Math_random_def constant_source_def slice0_def)
  then show ?thesis
    using h1 h2 news_fallback_length_and_ids [OF h1 h2] by simp
qed

text \<open>
  C9. For every verdict string that is neither "true" nor "misleading" in any letter
  case, \<open>getVerdictConfig\<close> of the results page selects the Needs Review configuration.
\<close>

theorem verdict_default_needs_review:
  assumes "\<not> equals_any_case v ''true''" and "\<not> equals_any_case v ''misleading''"
  shows "getVerdictConfig v = needsReviewConfig"
  using assms
  by (simp add: getVerdictConfig_def needsReviewConfig_def toLowerCase_eq_iff lower_words)

theorem verdict_default_needs_review_witness:
  "\<not> equals_any_case ''Unverified'' ''true'' \<and> \<not> equals_any_case ''Unverified'' ''misleading''
   \<and> getVerdictConfig ''Unverified'' = needsReviewConfig
   \<and> label (getVerdictConfig ''Unverified'') = ''Needs Review''"
proof -
  have h1: "\<not> equals_any_case ''Unverified'' ''true''"
    by (simp add: equals_any_case_def)
  have h2: "\<not> equals_any_case ''Unverified'' ''misleading''"
    by (simp add: equals_any_case_def eval_strings)
  show ?thesis
    using h1 h2 verdict_default_needs_review [OF h1 h2] by (simp add: needsReviewConfig_def)
qed

text \<open>The two named verdicts do get a configuration of their own.\<close>

lemma verdict_true_or_misleading_not_needs_review:
  "equals_any_case v ''true'' \<or> equals_any_case v ''misleading''
   \<Longrightarrow> getVerdictConfig v \<noteq> needsReviewConfig"
  by (auto simp add: getVerdictConfig_def needsReviewConfig_def toLowerCase_eq_iff [symmetric] lower_words)

section \<open>\<open>JSON.parse\<close> reads back what \<open>JSON.stringify\<close> writes\<close>



































section \<open>The records survive the passage through JSON\<close>
















section \<open>Properties of the persistence effects\<close>

text \<open>
  C3 (amended). Whenever access to the storage throws (storage unavailable), nothing is
  stored under the key, or the stored payload is rejected by \<open>JSON.parse\<close> (malformed
  JSON), the load effect dispatches nothing, the collection stays empty and no error
  leaves the effect, whatever the engine's parser. A non-empty payload that the parser
  accepts becomes the collection as parsed: the source makes no schema check.
\<close>

theorem load_fails_soft:
  "((st = Disabled
      \<or> (\<exists>quota items. st = Enabled quota items
            \<and> (items STORAGE_KEY = None
               \<or> (\<exists>payload. items STORAGE_KEY = Some payload \<and> parse_impl payload = None))))
     \<longrightarrow> fst (load_effect parse_impl st) = None
         \<and> collection_after_load parse_impl st = JArr []
         \<and> rehydrate parse_impl st initialState = Some initialState)
   \<and> ((\<exists>quota items. st = Enabled quota items \<and> items STORAGE_KEY = Some payload)
        \<and> payload \<noteq> [] \<and> parse_impl payload = Some j
     \<longrightarrow> collection_after_load parse_impl st = j)"
  by (auto simp: load_effect_def load_try_def collection_after_load_def rehydrate_def)

theorem load_fails_soft_witness:
  "JSON_parse decimal_string_to_number ''{bad'' = None
   \<and> collection_after_load (JSON_parse decimal_string_to_number) (storage_holding ''{bad'') = JArr []
   \<and> rehydrate (JSON_parse decimal_string_to_number) (storage_holding ''{bad'') initialState
       = Some initialState
   \<and> collection_after_load (JSON_parse decimal_string_to_number) Disabled = JArr []
   \<and> JSON_parse decimal_string_to_number ''[]'' = Some (JArr [])
   \<and> collection_after_load (JSON_parse decimal_string_to_number) (storage_holding ''[]'') = JArr []"
proof -
  have p: "JSON_parse decimal_string_to_number ''{bad'' = None" by code_simp
  have q: "JSON_parse decimal_string_to_number ''[]'' = Some (JArr [])" by code_simp
  show ?thesis
    using p q
      load_fails_soft [of "storage_holding ''{bad''" "JSON_parse decimal_string_to_number"
        "''[]''" "JArr []"]
      load_fails_soft [of Disabled "JSON_parse decimal_string_to_number" "''[]''" "JArr []"]
      load_fails_soft [of "storage_holding ''[]''" "JSON_parse decimal_string_to_number"
        "''[]''" "JArr []"]
    by (simp add: storage_holding_def)
qed

text \<open>
  A payload of the wrong schema is not replaced by an empty collection: the text
  \<open>[{}]\<close> is JSON, its value is no \<open>Verification[]\<close>, and after the load the collection
  has that one malformed element.
\<close>

theorem load_wrong_schema_counterexample:
  "JSON_parse decimal_string_to_number ''[{}]'' = Some (JArr [JObj []])
   \<and> as_verifications (JArr [JObj []]) = None
   \<and> collection_after_load (JSON_parse decimal_string_to_number) (storage_holding ''[{}]'')
       = JArr [JObj []]
   \<and> collection_after_load (JSON_parse decimal_string_to_number) (storage_holding ''[{}]'')
       \<noteq> JArr []"
proof -
  have p: "JSON_parse decimal_string_to_number ''[{}]'' = Some (JArr [JObj []])" by code_simp
  have a: "as_verifications (JArr [JObj []]) = None"
    by (simp add: as_verifications_def as_verification_def as_string_def)
  have c: "collection_after_load (JSON_parse decimal_string_to_number) (storage_holding ''[{}]'')
           = JArr [JObj []]"
    using p by (simp add: collection_after_load_def load_effect_def load_try_def storage_holding_def)
  from p a c show ?thesis by simp
qed






end
